theory Spec2Isabelle
  imports Complex_Main
begin

section \<open>The Button component of \<^verbatim>\<open>src/components/button/button.tsx\<close>\<close>

text \<open>
  The component is a React function component. Its decision logic is embedded here as
  HOL functions of the values the component reads in one render: the props, the
  ambient contexts and the hook state. Values that TypeScript leaves optional are
  \<open>option\<close>s (\<open>None\<close> is \<^verbatim>\<open>undefined\<close>); JavaScript truthiness is written out.
\<close>

subsection \<open>JavaScript values\<close>

text \<open>
  A JavaScript number. The component only compares numbers with zero and the host only
  converts a delay to an integer, so a finite double is represented by the real it
  denotes (\<^verbatim>\<open>-0\<close> and \<^verbatim>\<open>0\<close> are both
  \<open>Finite 0\<close>: they compare equal under \<^verbatim>\<open><=\<close>, \<^verbatim>\<open>>\<close> and \<^verbatim>\<open>===\<close>).
\<close>

datatype jsnumber = NaN | NegInfinity | Finite real | PosInfinity

text \<open>\<^verbatim>\<open>x <= 0\<close> and \<^verbatim>\<open>x > 0\<close> on numbers: every comparison with NaN is false.\<close>

fun js_le_zero :: "jsnumber \<Rightarrow> bool" where
  "js_le_zero NaN = False"
| "js_le_zero NegInfinity = True"
| "js_le_zero (Finite r) = (r \<le> 0)"
| "js_le_zero PosInfinity = False"

fun js_gt_zero :: "jsnumber \<Rightarrow> bool" where
  "js_gt_zero NaN = False"
| "js_gt_zero NegInfinity = False"
| "js_gt_zero (Finite r) = (0 < r)"
| "js_gt_zero PosInfinity = True"

text \<open>
  An optional string-literal prop (\<^verbatim>\<open>color\<close>, \<^verbatim>\<open>variant\<close>) at run time: \<^verbatim>\<open>undefined\<close>
  or a string. The only falsy string is the empty one.
\<close>

definition truthy_str :: "string option \<Rightarrow> bool" where
  "truthy_str s = (case s of None \<Rightarrow> False | Some v \<Rightarrow> v \<noteq> [])"

subsection \<open>Colour and variant resolution (lines 162-259)\<close>

text \<open>
  Modelled from the spec: the type \<^verbatim>\<open>ButtonType\<close> is declared in
  \<^verbatim>\<open>./buttonHelpers\<close>, which is not among the source files. Its members are the keys of
  \<^verbatim>\<open>ButtonTypeMap\<close> (a \<^verbatim>\<open>Record<ButtonType, ...>\<close>), which are also the five legacy types
  the spec's mapping table lists.
\<close>

datatype ButtonType = BT_default | BT_primary | BT_dashed | BT_link | BT_text

text \<open>\<^verbatim>\<open>type ColorVariantPairType = [color?: ButtonColorType, variant?: ButtonVariantType]\<close>\<close>

type_synonym ColorVariantPairType = "string option \<times> string option"

text \<open>
  \<^verbatim>\<open>const ButtonTypeMap: Partial<Record<ButtonType, ColorVariantPairType>>\<close>: a lookup
  may be \<^verbatim>\<open>undefined\<close> as far as the declared type goes, hence the \<open>option\<close>.
\<close>

fun ButtonTypeMap :: "ButtonType \<Rightarrow> ColorVariantPairType option" where
  "ButtonTypeMap BT_default = Some (Some ''default'', Some ''outlined'')"
| "ButtonTypeMap BT_primary = Some (Some ''primary'', Some ''solid'')"
| "ButtonTypeMap BT_dashed = Some (Some ''default'', Some ''dashed'')"
| "ButtonTypeMap BT_link = Some (Some ''link'', Some ''link'')"
| "ButtonTypeMap BT_text = Some (Some ''default'', Some ''text'')"

text \<open>The part of the \<^verbatim>\<open>ConfigContext\<close> value \<^verbatim>\<open>button\<close> that the component reads.\<close>

record ButtonConfig =
  cfg_shape :: "string option"
  cfg_color :: "string option"
  cfg_variant :: "string option"

text \<open>\<^verbatim>\<open>button?.color\<close> and \<^verbatim>\<open>button?.variant\<close>, with \<^verbatim>\<open>button\<close> itself optional.\<close>

definition button_color :: "ButtonConfig option \<Rightarrow> string option" where
  "button_color button = (case button of None \<Rightarrow> None | Some b \<Rightarrow> cfg_color b)"

definition button_variant :: "ButtonConfig option \<Rightarrow> string option" where
  "button_variant button = (case button of None \<Rightarrow> None | Some b \<Rightarrow> cfg_variant b)"

text \<open>\<^verbatim>\<open>const mergedType = type || 'default'\<close> (every member of \<^verbatim>\<open>ButtonType\<close> is truthy).\<close>

definition mergedType :: "ButtonType option \<Rightarrow> ButtonType" where
  "mergedType type_prop = (case type_prop of None \<Rightarrow> BT_default | Some t \<Rightarrow> t)"

text \<open>
  The callback of the \<^verbatim>\<open>useMemo\<close> of lines 229-255, which computes
  \<^verbatim>\<open>[mergedColor, mergedVariant]\<close>. \<^verbatim>\<open>danger\<close> is the prop after its destructuring default
  (\<^verbatim>\<open>danger = false\<close>). \<^verbatim>\<open>ButtonTypeMap[mergedType] || []\<close> reads as the pair
  \<open>(None, None)\<close> when the lookup is \<^verbatim>\<open>undefined\<close>, since both components of an empty
  array are \<^verbatim>\<open>undefined\<close>.
\<close>

definition mergedColorVariant ::
  "string option \<Rightarrow> string option \<Rightarrow> ButtonType option \<Rightarrow> bool \<Rightarrow> ButtonConfig option
    \<Rightarrow> ColorVariantPairType" where
  "mergedColorVariant color variant type_prop danger button =
     (if truthy_str color \<and> truthy_str variant then (color, variant)
      else if type_prop \<noteq> None \<or> danger then
        (let colorVariantPair =
               (case ButtonTypeMap (mergedType type_prop) of
                  Some p \<Rightarrow> p
                | None \<Rightarrow> (None, None))
         in if danger then (Some ''danger'', snd colorVariantPair) else colorVariantPair)
      else if truthy_str (button_color button) \<and> truthy_str (button_variant button)
        then (button_color button, button_variant button)
      else (Some ''default'', Some ''outlined''))"

text \<open>The \<^verbatim>\<open>danger\<close> prop with its destructuring default applied.\<close>

definition danger_default :: "bool option \<Rightarrow> bool" where
  "danger_default danger = (case danger of None \<Rightarrow> False | Some d \<Rightarrow> d)"

text \<open>\<^verbatim>\<open>const isDanger = mergedColor === 'danger'\<close>\<close>

definition isDanger :: "ColorVariantPairType \<Rightarrow> bool" where
  "isDanger p = (fst p = Some ''danger'')"

text \<open>
  The four branches of the resolution, named, to state which one produced a result.
  \<open>rule_guard\<close> is the condition the source tests for the branch, \<open>rule_result\<close> what
  the branch returns, and a rule \<open>fires\<close> when its condition holds and the condition
  of no earlier branch does.
\<close>

datatype ResolutionRule = ExplicitPair | LegacySugar | ContextPair | DefaultFallback

fun rule_guard ::
  "ResolutionRule \<Rightarrow> string option \<Rightarrow> string option \<Rightarrow> ButtonType option \<Rightarrow> bool
    \<Rightarrow> ButtonConfig option \<Rightarrow> bool" where
  "rule_guard ExplicitPair color variant type_prop danger button =
     (truthy_str color \<and> truthy_str variant)"
| "rule_guard LegacySugar color variant type_prop danger button =
     (type_prop \<noteq> None \<or> danger)"
| "rule_guard ContextPair color variant type_prop danger button =
     (truthy_str (button_color button) \<and> truthy_str (button_variant button))"
| "rule_guard DefaultFallback color variant type_prop danger button = True"

fun rule_result ::
  "ResolutionRule \<Rightarrow> string option \<Rightarrow> string option \<Rightarrow> ButtonType option \<Rightarrow> bool
    \<Rightarrow> ButtonConfig option \<Rightarrow> ColorVariantPairType" where
  "rule_result ExplicitPair color variant type_prop danger button = (color, variant)"
| "rule_result LegacySugar color variant type_prop danger button =
     (let colorVariantPair =
            (case ButtonTypeMap (mergedType type_prop) of
               Some p \<Rightarrow> p
             | None \<Rightarrow> (None, None))
      in if danger then (Some ''danger'', snd colorVariantPair) else colorVariantPair)"
| "rule_result ContextPair color variant type_prop danger button =
     (button_color button, button_variant button)"
| "rule_result DefaultFallback color variant type_prop danger button =
     (Some ''default'', Some ''outlined'')"

fun earlier_rules :: "ResolutionRule \<Rightarrow> ResolutionRule list" where
  "earlier_rules ExplicitPair = []"
| "earlier_rules LegacySugar = [ExplicitPair]"
| "earlier_rules ContextPair = [ExplicitPair, LegacySugar]"
| "earlier_rules DefaultFallback = [ExplicitPair, LegacySugar, ContextPair]"

definition fires ::
  "ResolutionRule \<Rightarrow> string option \<Rightarrow> string option \<Rightarrow> ButtonType option \<Rightarrow> bool
    \<Rightarrow> ButtonConfig option \<Rightarrow> bool" where
  "fires r color variant type_prop danger button =
     (rule_guard r color variant type_prop danger button \<and>
      list_all (\<lambda>e. \<not> rule_guard e color variant type_prop danger button) (earlier_rules r))"

subsection \<open>Run-time values of props\<close>

text \<open>
  A JavaScript value as far as the component inspects one: the primitive values, and
  \<open>JObject\<close> for a reference to any object (a React element, an array, a function),
  which the component never looks into. A \<^verbatim>\<open>React.ReactNode\<close> is such a value.
\<close>

datatype jsval =
  JUndefined | JNull | JBool bool | JNumber jsnumber | JString string | JObject nat

type_synonym ReactNode = jsval

text \<open>JavaScript truthiness (\<^verbatim>\<open>!!v\<close>).\<close>

fun truthy :: "jsval \<Rightarrow> bool" where
  "truthy JUndefined = False"
| "truthy JNull = False"
| "truthy (JBool b) = b"
| "truthy (JNumber n) = (n \<noteq> NaN \<and> n \<noteq> Finite 0)"
| "truthy (JString s) = (s \<noteq> [])"
| "truthy (JObject k) = True"

text \<open>\<^verbatim>\<open>typeof v === 'number'\<close> and \<^verbatim>\<open>Number.isNaN(v)\<close> (which never coerces).\<close>

fun typeof_number :: "jsval \<Rightarrow> bool" where
  "typeof_number (JNumber n) = True"
| "typeof_number v = False"

fun Number_isNaN :: "jsval \<Rightarrow> bool" where
  "Number_isNaN (JNumber n) = (n = NaN)"
| "Number_isNaN v = False"

subsection \<open>Loading configuration (lines 125-156)\<close>

text \<open>
  The prop \<^verbatim>\<open>loading?: boolean | { delay?: number; icon?: React.ReactNode }\<close>. The two
  fields of the object are kept as run-time values, because \<^verbatim>\<open>getLoadingConfig\<close> tests
  the run-time type of \<^verbatim>\<open>delay\<close>; an absent field is \<open>JUndefined\<close>.
\<close>

datatype LoadingProp = LoadingBool bool | LoadingObject jsval ReactNode

text \<open>The destructuring default \<^verbatim>\<open>loading = false\<close>.\<close>

definition loading_default :: "LoadingProp option \<Rightarrow> LoadingProp" where
  "loading_default l = (case l of None \<Rightarrow> LoadingBool False | Some v \<Rightarrow> v)"

record LoadingConfigType =
  loading :: bool
  delay :: jsnumber

text \<open>
  \<^verbatim>\<open>delay = !Number.isNaN(delay) && typeof delay === 'number' ? delay : 0\<close>: the value
  kept is a number; anything else becomes \<open>Finite 0\<close>.
\<close>

definition valid_delay :: "jsval \<Rightarrow> jsnumber" where
  "valid_delay d =
     (if \<not> Number_isNaN d \<and> typeof_number d
      then (case d of JNumber n \<Rightarrow> n | _ \<Rightarrow> Finite 0)
      else Finite 0)"

text \<open>
  \<^verbatim>\<open>getLoadingConfig\<close>. The first branch is taken by an object
  (\<^verbatim>\<open>typeof loading === 'object' && loading\<close>), the second by a boolean. No operation of
  the function can throw: it reads a property of an object, tests a type and compares
  numbers.
\<close>

fun getLoadingConfig :: "LoadingProp \<Rightarrow> LoadingConfigType" where
  "getLoadingConfig (LoadingObject d i) =
     (let delay = valid_delay d
      in \<lparr>loading = js_le_zero delay, delay = delay\<rparr>)"
| "getLoadingConfig (LoadingBool b) = \<lparr>loading = b, delay = Finite 0\<rparr>"

text \<open>\<^verbatim>\<open>const loadingOrDelay = useMemo(() => getLoadingConfig(loading), [loading])\<close>\<close>

definition loadingOrDelay :: "LoadingProp option \<Rightarrow> LoadingConfigType" where
  "loadingOrDelay l = getLoadingConfig (loading_default l)"

subsection \<open>The loading state over time (lines 294-296 and 334-356)\<close>

text \<open>
  One mounted instance of the component, as far as loading goes. React and the host's
  timers are made explicit:
  \<^item> \<open>innerLoading\<close> is the \<^verbatim>\<open>useState\<close> cell;
  \<^item> \<open>deps\<close> are the dependencies \<^verbatim>\<open>[loadingOrDelay.delay, loadingOrDelay.loading]\<close> of
    the last run of the layout effect;
  \<^item> \<open>delayTimer\<close> is the variable \<^verbatim>\<open>delayTimer\<close> of that run, which the cleanup
    function React holds and the timer callback of that run share;
  \<^item> \<open>timers\<close> are the timeouts this instance has set and the host has neither run
    nor cleared, oldest first. It is a list, so that a leaked timer would show;
  \<^item> \<open>fired\<close> counts the timer callbacks that have run.
  A timer handle is a positive integer (the cleanup tests it for truthiness), so
  handles start at 1.
\<close>

record timer =
  timer_id :: nat
  timer_delay :: jsnumber
  timer_elapsed :: real

record LoadingAutomaton =
  innerLoading :: bool
  deps :: "LoadingConfigType option"
  delayTimer :: "nat option"
  timers :: "timer list"
  next_timer_id :: nat
  fired :: nat
  mounted :: bool

text \<open>
  The body of the layout effect. Each run starts with \<^verbatim>\<open>let delayTimer = null\<close>; with a
  positive delay it sets a timeout and keeps its handle, otherwise it calls
  \<^verbatim>\<open>setLoading(loadingOrDelay.loading)\<close>.
\<close>

definition layoutEffect :: "LoadingConfigType \<Rightarrow> LoadingAutomaton \<Rightarrow> LoadingAutomaton" where
  "layoutEffect cfg st =
     (if js_gt_zero (delay cfg)
      then st\<lparr>delayTimer := Some (next_timer_id st),
              timers := timers st @
                [\<lparr>timer_id = next_timer_id st, timer_delay = delay cfg, timer_elapsed = 0\<rparr>],
              next_timer_id := Suc (next_timer_id st),
              deps := Some cfg\<rparr>
      else st\<lparr>delayTimer := None, innerLoading := loading cfg, deps := Some cfg\<rparr>)"

text \<open>
  \<^verbatim>\<open>cleanupTimer\<close>: \<^verbatim>\<open>if (delayTimer) { clearTimeout(delayTimer); delayTimer = null; }\<close>.
  The test is truthiness, so a handle 0 would not be cleared.
\<close>

definition cleanupTimer :: "LoadingAutomaton \<Rightarrow> LoadingAutomaton" where
  "cleanupTimer st =
     (case delayTimer st of
        None \<Rightarrow> st
      | Some h \<Rightarrow>
          if h \<noteq> 0
          then st\<lparr>timers := filter (\<lambda>t. timer_id t \<noteq> h) (timers st), delayTimer := None\<rparr>
          else st)"

text \<open>
  Mounting: \<^verbatim>\<open>useState(loadingOrDelay.loading)\<close> gives the first value of the flag, then
  the layout effect runs for the first time.
\<close>

definition mount :: "LoadingProp option \<Rightarrow> LoadingAutomaton" where
  "mount l =
     layoutEffect (loadingOrDelay l)
       \<lparr>innerLoading = loading (loadingOrDelay l), deps = None, delayTimer = None,
        timers = [], next_timer_id = 1, fired = 0, mounted = True\<rparr>"

text \<open>
  A render with a new \<^verbatim>\<open>loading\<close> prop. React compares the dependencies of the effect
  with those of its last run; when one differs it runs the cleanup of the last run and
  then the effect again.
\<close>

definition update :: "LoadingProp option \<Rightarrow> LoadingAutomaton \<Rightarrow> LoadingAutomaton" where
  "update l st =
     (if \<not> mounted st \<or> deps st = Some (loadingOrDelay l) then st
      else layoutEffect (loadingOrDelay l) (cleanupTimer st))"

text \<open>
  The timers of the host. \<^verbatim>\<open>setTimeout\<close> is not the component's: as the HTML Standard
  has it, the delay it is given is converted to a 32-bit signed integer (a fraction is
  dropped, the result wraps modulo 2^32 into the signed range, NaN and the infinities
  give 0) and a negative result is taken as 0. \<open>setTimeout_ms\<close> is the timeout in
  milliseconds that results: the delay itself for a whole number of milliseconds up to
  2147483647, and 0, which is at once, for 3000000000 or \<^verbatim>\<open>Infinity\<close>. A timer is due
  once its timeout has elapsed, and the host runs the callbacks of due timers when time
  passes (\<open>advance\<close>, also by 0 milliseconds). The callback is
  \<^verbatim>\<open>() => { delayTimer = null; setLoading(true); }\<close>: it writes the variable of the effect
  run that set it, which is the current \<open>delayTimer\<close> only when that run is still the
  last one, and \<^verbatim>\<open>setLoading\<close> on an unmounted instance changes nothing.
\<close>

definition webidl_long :: "real \<Rightarrow> int" where
  "webidl_long r =
     (let i = (if 0 \<le> r then \<lfloor>r\<rfloor> else \<lceil>r\<rceil>);
          w = i mod 4294967296
      in if 2147483648 \<le> w then w - 4294967296 else w)"

fun setTimeout_ms :: "jsnumber \<Rightarrow> real" where
  "setTimeout_ms NaN = 0"
| "setTimeout_ms NegInfinity = 0"
| "setTimeout_ms PosInfinity = 0"
| "setTimeout_ms (Finite r) = real_of_int (max 0 (webidl_long r))"

definition timer_due :: "timer \<Rightarrow> bool" where
  "timer_due t = (setTimeout_ms (timer_delay t) \<le> timer_elapsed t)"

definition fire :: "LoadingAutomaton \<Rightarrow> timer \<Rightarrow> LoadingAutomaton" where
  "fire st t =
     st\<lparr>delayTimer := (if delayTimer st = Some (timer_id t) then None else delayTimer st),
        innerLoading := (if mounted st then True else innerLoading st),
        fired := Suc (fired st)\<rparr>"

definition advance :: "real \<Rightarrow> LoadingAutomaton \<Rightarrow> LoadingAutomaton" where
  "advance dt st =
     (let aged = map (\<lambda>t. t\<lparr>timer_elapsed := timer_elapsed t + dt\<rparr>) (timers st)
      in foldl fire (st\<lparr>timers := filter (\<lambda>t. \<not> timer_due t) aged\<rparr>) (filter timer_due aged))"

text \<open>Unmounting runs the cleanup of the last effect run.\<close>

definition unmount :: "LoadingAutomaton \<Rightarrow> LoadingAutomaton" where
  "unmount st = (if mounted st then (cleanupTimer st)\<lparr>mounted := False, deps := None\<rparr> else st)"

text \<open>What happens to a mounted instance, and a run of such events.\<close>

datatype event = Update "LoadingProp option" | Advance real | Unmount

fun step :: "LoadingAutomaton \<Rightarrow> event \<Rightarrow> LoadingAutomaton" where
  "step st (Update l) = update l st"
| "step st (Advance dt) = advance dt st"
| "step st Unmount = unmount st"

definition run :: "LoadingAutomaton \<Rightarrow> event list \<Rightarrow> LoadingAutomaton" where
  "run st es = foldl step st es"

text \<open>
  The time that passes in a run, and whether any passes. An event is \<open>quiet\<close> for a
  normalised specification when it is time passing (forwards) or a render whose
  \<^verbatim>\<open>loading\<close> prop normalises to that specification again.
\<close>

fun elapsed_of :: "event list \<Rightarrow> real" where
  "elapsed_of [] = 0"
| "elapsed_of (Advance dt # es) = dt + elapsed_of es"
| "elapsed_of (ev # es) = elapsed_of es"

fun time_passes :: "event \<Rightarrow> bool" where
  "time_passes (Advance dt) = True"
| "time_passes ev = False"

fun quiet :: "LoadingConfigType \<Rightarrow> event \<Rightarrow> bool" where
  "quiet cfg (Advance dt) = (0 \<le> dt)"
| "quiet cfg (Update l) = (loadingOrDelay l = cfg)"
| "quiet cfg Unmount = False"

text \<open>
  What holds of every state of a mounted instance: handles are positive; when
  \<open>delayTimer\<close> is null no timer is pending; when it holds a handle, the instance is
  mounted and the only pending timer is the one with that handle, set for the delay of
  the current dependencies; and when the current delay is not positive, the flag is
  the \<^verbatim>\<open>loading\<close> of the current dependencies.
\<close>

definition loading_inv :: "LoadingAutomaton \<Rightarrow> bool" where
  "loading_inv st =
     (0 < next_timer_id st \<and>
      (case delayTimer st of
         None \<Rightarrow> timers st = []
       | Some h \<Rightarrow>
           mounted st \<and> 0 < h \<and> h < next_timer_id st \<and>
           (case deps st of
              None \<Rightarrow> False
            | Some cfg \<Rightarrow>
                js_gt_zero (delay cfg) \<and> map timer_id (timers st) = [h] \<and>
                map timer_delay (timers st) = [delay cfg])) \<and>
      (case deps st of
         None \<Rightarrow> True
       | Some cfg \<Rightarrow> mounted st \<and> \<not> js_gt_zero (delay cfg) \<longrightarrow> innerLoading st = loading cfg))"

subsection \<open>Disabled state and the click handler (lines 284-286 and 396-413)\<close>

text \<open>
  \<^verbatim>\<open>const mergedDisabled = customDisabled ?? disabled\<close>: the \<^verbatim>\<open>disabled\<close> prop when it is
  given, else the boolean of the \<^verbatim>\<open>DisabledContext\<close>.
\<close>

definition mergedDisabled :: "bool option \<Rightarrow> bool \<Rightarrow> bool" where
  "mergedDisabled customDisabled disabled =
     (case customDisabled of None \<Rightarrow> disabled | Some d \<Rightarrow> d)"

text \<open>
  What a call of \<^verbatim>\<open>handleClick\<close> does with its event, in order: it calls
  \<^verbatim>\<open>e.preventDefault()\<close>, or it calls the \<^verbatim>\<open>onClick\<close> prop with the event. The event is
  passed on as it is; the source only casts it, to the event type of an anchor when the
  props have a key \<^verbatim>\<open>href\<close> and to that of a button otherwise, which \<open>cast_event\<close>
  records.
\<close>

datatype 'e cast_event = AnchorMouseEvent 'e | ButtonMouseEvent 'e

datatype 'e click_action = PreventDefault | OnClick "'e cast_event"

text \<open>
  \<^verbatim>\<open>handleClick\<close>. \<open>has_onClick\<close> says whether the \<^verbatim>\<open>onClick\<close> prop is given
  (\<^verbatim>\<open>props.onClick?.(...)\<close> does nothing otherwise) and \<open>href_in_props\<close> is
  \<^verbatim>\<open>'href' in props\<close>.
\<close>

definition handleClick :: "bool \<Rightarrow> bool \<Rightarrow> bool \<Rightarrow> bool \<Rightarrow> 'e \<Rightarrow> 'e click_action list" where
  "handleClick innerLoading_now disabled_now has_onClick href_in_props e =
     (if innerLoading_now \<or> disabled_now then [PreventDefault]
      else if has_onClick
        then [OnClick (if href_in_props then AnchorMouseEvent e else ButtonMouseEvent e)]
      else [])"

subsection \<open>Auto-spacing of two Chinese characters (lines 274, 300, 310-311, 363-378)\<close>

text \<open>\<^verbatim>\<open>const mergedInsertSpace = autoInsertSpace ?? contextAutoInsertSpace ?? true\<close>\<close>

definition mergedInsertSpace :: "bool option \<Rightarrow> bool option \<Rightarrow> bool" where
  "mergedInsertSpace autoInsertSpace contextAutoInsertSpace =
     (case autoInsertSpace of
        Some a \<Rightarrow> a
      | None \<Rightarrow> (case contextAutoInsertSpace of Some c \<Rightarrow> c | None \<Rightarrow> True))"

text \<open>
  \<^verbatim>\<open>needInserted\<close>. \<^verbatim>\<open>Children.count\<close> is React's and \<^verbatim>\<open>isUnBorderedButtonVariant\<close> is
  imported from \<^verbatim>\<open>./buttonHelpers\<close>; neither is among the source files, so both are
  parameters.
\<close>

definition needInserted ::
  "(ReactNode \<Rightarrow> nat) \<Rightarrow> (string option \<Rightarrow> bool) \<Rightarrow> ReactNode \<Rightarrow> ReactNode \<Rightarrow> string option
    \<Rightarrow> bool" where
  "needInserted Children_count isUnBorderedButtonVariant children icon mergedVariant =
     (Children_count children = 1 \<and> \<not> truthy icon \<and> \<not> isUnBorderedButtonVariant mergedVariant)"

text \<open>
  The effect that maintains the state \<^verbatim>\<open>hasTwoCNChar\<close>; it runs after every render and
  the function gives the state after it. \<open>textContent\<close> is \<open>None\<close> when
  \<^verbatim>\<open>buttonRef.current\<close> is null, else the text of the element
  (\<^verbatim>\<open>buttonRef.current.textContent || ''\<close>). \<^verbatim>\<open>isTwoCNChar\<close> is imported from
  \<^verbatim>\<open>./buttonHelpers\<close> and is a parameter.
\<close>

definition twoCNCharEffect ::
  "(string \<Rightarrow> bool) \<Rightarrow> string option \<Rightarrow> bool \<Rightarrow> bool \<Rightarrow> bool \<Rightarrow> bool" where
  "twoCNCharEffect isTwoCNChar textContent insertSpace need hasTwoCNChar =
     (case textContent of
        None \<Rightarrow> hasTwoCNChar
      | Some buttonText \<Rightarrow>
          if \<not> insertSpace then hasTwoCNChar
          else if need \<and> isTwoCNChar buttonText
            then (if \<not> hasTwoCNChar then True else hasTwoCNChar)
          else if hasTwoCNChar then False
          else hasTwoCNChar)"

subsection \<open>What is rendered (lines 452-567)\<close>

text \<open>\<^verbatim>\<open>const iconType = innerLoading ? 'loading' : icon\<close>\<close>

definition iconType :: "bool \<Rightarrow> ReactNode \<Rightarrow> jsval" where
  "iconType innerLoading_now icon = (if innerLoading_now then JString ''loading'' else icon)"

text \<open>
  The values of the keys with a fixed suffix in the object given to \<^verbatim>\<open>classNames\<close>
  (lines 466-493), as booleans: \<^verbatim>\<open>classNames\<close> emits the class of a key exactly when
  its value is truthy. \<open>suffix_classes\<close> lists the keys in the order of the source,
  each by its suffix after \<^verbatim>\<open>prefixCls\<close>; \<open>has_class\<close> reads one. The keys whose
  name is computed from a prop (shape, type, colour, variant, size) and the class names
  passed on from props and contexts are left out. \<open>in_unbordered\<close> is
  \<^verbatim>\<open>isUnBorderedButtonVariant(mergedVariant)\<close>, \<open>in_rtl\<close> is \<^verbatim>\<open>direction === 'rtl'\<close> and
  \<open>in_icon_end\<close> is \<^verbatim>\<open>iconPosition === 'end'\<close>.
\<close>

record ClassInputs =
  in_danger :: bool
  in_children :: ReactNode
  in_icon :: ReactNode
  in_ghost :: bool
  in_unbordered :: bool
  in_innerLoading :: bool
  in_hasTwoCNChar :: bool
  in_mergedInsertSpace :: bool
  in_block :: bool
  in_rtl :: bool
  in_icon_end :: bool

definition suffix_classes :: "ClassInputs \<Rightarrow> (string \<times> bool) list" where
  "suffix_classes i =
     [(''-dangerous'', in_danger i),
      (''-icon-only'',
         \<not> truthy (in_children i) \<and> in_children i \<noteq> JNumber (Finite 0) \<and>
         truthy (iconType (in_innerLoading i) (in_icon i))),
      (''-background-ghost'', in_ghost i \<and> \<not> in_unbordered i),
      (''-loading'', in_innerLoading i),
      (''-two-chinese-chars'',
         in_hasTwoCNChar i \<and> in_mergedInsertSpace i \<and> \<not> in_innerLoading i),
      (''-block'', in_block i),
      (''-rtl'', in_rtl i),
      (''-icon-end'', in_icon_end i)]"

definition has_class :: "string \<Rightarrow> ClassInputs \<Rightarrow> bool" where
  "has_class suffix i = (map_of (suffix_classes i) suffix = Some True)"

text \<open>
  \<^verbatim>\<open>iconNode\<close>. An \<^verbatim>\<open>IconWrapper\<close> is recorded with its child, the
  \<^verbatim>\<open>DefaultLoadingIcon\<close> with its props \<^verbatim>\<open>existIcon\<close>, \<^verbatim>\<open>loading\<close> and \<^verbatim>\<open>mount\<close>; the
  class prefix and the class and style of the icon, which both get, are left out.
  The second test, \<^verbatim>\<open>loading && typeof loading === 'object' && loading.icon\<close>, is on the
  prop \<^verbatim>\<open>loading\<close> (after its default), not on the state \<^verbatim>\<open>innerLoading\<close>.
\<close>

datatype IconNode = IconWrapper ReactNode | DefaultLoadingIcon bool bool bool

fun loading_prop_truthy :: "LoadingProp \<Rightarrow> bool" where
  "loading_prop_truthy (LoadingBool b) = b"
| "loading_prop_truthy (LoadingObject d i) = True"

fun typeof_object :: "LoadingProp \<Rightarrow> bool" where
  "typeof_object (LoadingBool b) = False"
| "typeof_object (LoadingObject d i) = True"

fun loading_icon :: "LoadingProp \<Rightarrow> ReactNode" where
  "loading_icon (LoadingBool b) = JUndefined"
| "loading_icon (LoadingObject d i) = i"

definition iconNode :: "ReactNode \<Rightarrow> bool \<Rightarrow> LoadingProp \<Rightarrow> bool \<Rightarrow> IconNode" where
  "iconNode icon innerLoading_now loading_prop isMount =
     (if truthy icon \<and> \<not> innerLoading_now then IconWrapper icon
      else if loading_prop_truthy loading_prop \<and> typeof_object loading_prop \<and>
              truthy (loading_icon loading_prop)
        then IconWrapper (loading_icon loading_prop)
      else DefaultLoadingIcon (truthy icon) innerLoading_now isMount)"

text \<open>
  \<^verbatim>\<open>isMountRef\<close>: \<^verbatim>\<open>useRef(true)\<close> on the first render of an instance, set to
  \<^verbatim>\<open>false\<close> by the effect that runs once after mounting and back to \<^verbatim>\<open>true\<close> by the
  cleanup of that effect on unmounting. Renders read it and leave it alone.
\<close>

datatype lifecycle = Render | MountEffect | UnmountCleanup

definition isMountRef_initial :: bool where
  "isMountRef_initial = True"

fun isMountRef_step :: "bool \<Rightarrow> lifecycle \<Rightarrow> bool" where
  "isMountRef_step r Render = r"
| "isMountRef_step r MountEffect = False"
| "isMountRef_step r UnmountCleanup = True"

definition isMountRef_after :: "lifecycle list \<Rightarrow> bool" where
  "isMountRef_after evs = foldl isMountRef_step isMountRef_initial evs"

text \<open>
  The element returned. With an \<^verbatim>\<open>href\<close> that is not \<^verbatim>\<open>undefined\<close> it is an anchor, of
  which the attributes that depend on \<^verbatim>\<open>mergedDisabled\<close> are recorded: the class with
  suffix \<^verbatim>\<open>-disabled\<close>, \<^verbatim>\<open>href\<close>, \<^verbatim>\<open>tabIndex\<close> and \<^verbatim>\<open>aria-disabled\<close>. Otherwise it is a
  button with its attribute \<^verbatim>\<open>disabled\<close>, wrapped in a \<^verbatim>\<open>Wave\<close> (recorded with the
  prop \<^verbatim>\<open>disabled\<close> of the wrapper) unless the variant is unbordered.
\<close>

record AnchorElement =
  a_disabled_class :: bool
  a_href :: "string option"
  a_tabIndex :: int
  a_aria_disabled :: bool

datatype Element =
  Anchor AnchorElement
| Button bool
| WaveButton bool bool

definition render_element :: "string option \<Rightarrow> bool \<Rightarrow> bool \<Rightarrow> bool \<Rightarrow> Element" where
  "render_element href disabled_now unbordered innerLoading_now =
     (if href \<noteq> None
      then Anchor \<lparr>a_disabled_class = disabled_now,
                   a_href = (if disabled_now then None else href),
                   a_tabIndex = (if disabled_now then - 1 else 0),
                   a_aria_disabled = disabled_now\<rparr>
      else if \<not> unbordered then WaveButton innerLoading_now disabled_now
      else Button disabled_now)"

subsection \<open>The specification's notions, for comparison with the code\<close>

text \<open>
  Children count as absent when the value is falsy and is not the number zero: these are
  \<^verbatim>\<open>undefined\<close>, \<^verbatim>\<open>null\<close>, \<^verbatim>\<open>false\<close>, the empty string and NaN. An icon is present when
  one is supplied (a truthy \<^verbatim>\<open>icon\<close>) or the loading flag is active, which shows the
  loading icon.
\<close>

fun spec_children_absent :: "ReactNode \<Rightarrow> bool" where
  "spec_children_absent JUndefined = True"
| "spec_children_absent JNull = True"
| "spec_children_absent (JBool b) = (\<not> b)"
| "spec_children_absent (JNumber n) = (n = NaN)"
| "spec_children_absent (JString s) = (s = [])"
| "spec_children_absent (JObject k) = False"

definition spec_icon_present :: "ReactNode \<Rightarrow> bool \<Rightarrow> bool" where
  "spec_icon_present icon innerLoading_now = (truthy icon \<or> innerLoading_now)"

section \<open>Properties\<close>

subsection \<open>Colour and variant resolution\<close>

text \<open>
  C1. When both \<^verbatim>\<open>color\<close> and \<^verbatim>\<open>variant\<close> are supplied (truthy), the resolver returns
  exactly that pair, whatever \<^verbatim>\<open>type\<close>, \<^verbatim>\<open>danger\<close> and the ambient \<^verbatim>\<open>button\<close>
  configuration are.
\<close>

theorem explicit_pair_verbatim:
  assumes "truthy_str color" and "truthy_str variant"
  shows "mergedColorVariant color variant type_prop (danger_default danger) button
           = (color, variant)"
  using assms by (simp add: mergedColorVariant_def)

theorem explicit_pair_verbatim_witness:
  "truthy_str (Some ''purple'') \<and> truthy_str (Some ''filled'') \<and>
   mergedColorVariant (Some ''purple'') (Some ''filled'') (Some BT_primary)
       (danger_default (Some True))
       (Some \<lparr>cfg_shape = None, cfg_color = Some ''default'', cfg_variant = Some ''text''\<rparr>)
     = (Some ''purple'', Some ''filled'')"
proof -
  have c: "truthy_str (Some ''purple'')" and v: "truthy_str (Some ''filled'')"
    by (simp_all add: truthy_str_def)
  from explicit_pair_verbatim [OF c v] c v show ?thesis by simp
qed

text \<open>
  C2. With no explicit pair, a legacy \<^verbatim>\<open>type\<close> alone resolves to its entry in the
  mapping table: default to (default, outlined), primary to (primary, solid), dashed to
  (default, dashed), link to (link, link), text to (default, text). With \<^verbatim>\<open>danger\<close> set
  and no explicit pair, the colour is \<^verbatim>\<open>danger\<close> and the variant is the one mapped from
  \<^verbatim>\<open>type\<close>, where an absent \<^verbatim>\<open>type\<close> counts as default. In particular \<^verbatim>\<open>danger\<close>
  with \<^verbatim>\<open>variant = 'text'\<close>, no \<^verbatim>\<open>color\<close> and no \<^verbatim>\<open>type\<close> resolves to
  (danger, outlined): the variant given is ignored.
\<close>

theorem legacy_sugar_resolution:
  "(\<forall>color variant t button.
      \<not> (truthy_str color \<and> truthy_str variant) \<longrightarrow>
      mergedColorVariant color variant (Some t) (danger_default None) button =
        (case t of
           BT_default \<Rightarrow> (Some ''default'', Some ''outlined'')
         | BT_primary \<Rightarrow> (Some ''primary'', Some ''solid'')
         | BT_dashed \<Rightarrow> (Some ''default'', Some ''dashed'')
         | BT_link \<Rightarrow> (Some ''link'', Some ''link'')
         | BT_text \<Rightarrow> (Some ''default'', Some ''text''))) \<and>
   (\<forall>color variant type_prop button.
      \<not> (truthy_str color \<and> truthy_str variant) \<longrightarrow>
      mergedColorVariant color variant type_prop (danger_default (Some True)) button =
        (Some ''danger'',
         Some (case mergedType type_prop of
                 BT_default \<Rightarrow> ''outlined''
               | BT_primary \<Rightarrow> ''solid''
               | BT_dashed \<Rightarrow> ''dashed''
               | BT_link \<Rightarrow> ''link''
               | BT_text \<Rightarrow> ''text''))) \<and>
   mergedType None = BT_default \<and>
   (\<forall>button. mergedColorVariant None (Some ''text'') None (danger_default (Some True)) button =
      (Some ''danger'', Some ''outlined''))"
proof (intro conjI allI impI)
  fix color variant t button
  assume "\<not> (truthy_str color \<and> truthy_str variant)"
  then show "mergedColorVariant color variant (Some t) (danger_default None) button =
        (case t of
           BT_default \<Rightarrow> (Some ''default'', Some ''outlined'')
         | BT_primary \<Rightarrow> (Some ''primary'', Some ''solid'')
         | BT_dashed \<Rightarrow> (Some ''default'', Some ''dashed'')
         | BT_link \<Rightarrow> (Some ''link'', Some ''link'')
         | BT_text \<Rightarrow> (Some ''default'', Some ''text''))"
    by (cases t) (auto simp add: mergedColorVariant_def danger_default_def mergedType_def)
next
  fix color variant type_prop button
  assume "\<not> (truthy_str color \<and> truthy_str variant)"
  then show "mergedColorVariant color variant type_prop (danger_default (Some True)) button =
        (Some ''danger'',
         Some (case mergedType type_prop of
                 BT_default \<Rightarrow> ''outlined''
               | BT_primary \<Rightarrow> ''solid''
               | BT_dashed \<Rightarrow> ''dashed''
               | BT_link \<Rightarrow> ''link''
               | BT_text \<Rightarrow> ''text''))"
    by (cases "mergedType type_prop")
       (auto simp add: mergedColorVariant_def danger_default_def)
next
  show "mergedType None = BT_default" by (simp add: mergedType_def)
next
  fix button
  show "mergedColorVariant None (Some ''text'') None (danger_default (Some True)) button =
      (Some ''danger'', Some ''outlined'')"
    by (simp add: mergedColorVariant_def danger_default_def mergedType_def truthy_str_def)
qed

theorem legacy_sugar_resolution_witness:
  "\<not> (truthy_str (Some ''red'') \<and> truthy_str None) \<and>
   mergedColorVariant (Some ''red'') None (Some BT_dashed) (danger_default None) None =
     (Some ''default'', Some ''dashed'') \<and>
   mergedColorVariant (Some ''red'') None (Some BT_primary) (danger_default (Some True)) None =
     (Some ''danger'', Some ''solid'')"
proof -
  have h: "\<not> (truthy_str (Some ''red'') \<and> truthy_str None)"
    by (simp add: truthy_str_def)
  from legacy_sugar_resolution h
  have "mergedColorVariant (Some ''red'') None (Some BT_dashed) (danger_default None) None =
          (case BT_dashed of
           BT_default \<Rightarrow> (Some ''default'', Some ''outlined'')
         | BT_primary \<Rightarrow> (Some ''primary'', Some ''solid'')
         | BT_dashed \<Rightarrow> (Some ''default'', Some ''dashed'')
         | BT_link \<Rightarrow> (Some ''link'', Some ''link'')
         | BT_text \<Rightarrow> (Some ''default'', Some ''text''))"
    by blast
  moreover from legacy_sugar_resolution h
  have "mergedColorVariant (Some ''red'') None (Some BT_primary) (danger_default (Some True)) None =
        (Some ''danger'',
         Some (case mergedType (Some BT_primary) of
                 BT_default \<Rightarrow> ''outlined''
               | BT_primary \<Rightarrow> ''solid''
               | BT_dashed \<Rightarrow> ''dashed''
               | BT_link \<Rightarrow> ''link''
               | BT_text \<Rightarrow> ''text''))"
    by blast
  ultimately show ?thesis using h by (simp add: mergedType_def)
qed

lemma fires_cases:
  "fires r color variant type_prop danger button \<longleftrightarrow>
     r = (if truthy_str color \<and> truthy_str variant then ExplicitPair
          else if type_prop \<noteq> None \<or> danger then LegacySugar
          else if truthy_str (button_color button) \<and> truthy_str (button_variant button)
            then ContextPair
          else DefaultFallback)"
  by (cases r) (auto simp add: fires_def)

lemma ButtonTypeMap_defined:
  "\<exists>c v. ButtonTypeMap t = Some (Some c, Some v) \<and> c \<noteq> [] \<and> v \<noteq> []"
  by (cases t) simp_all

text \<open>
  C3. For every input, the resolved colour and variant are both defined (each is a
  string, and not the empty one), exactly one of the four rules fires, and the result
  is what that rule returns.
\<close>

theorem resolution_defined_by_one_rule:
  "(\<exists>c v. mergedColorVariant color variant type_prop danger button = (Some c, Some v) \<and>
           c \<noteq> [] \<and> v \<noteq> []) \<and>
   (\<exists>!r. fires r color variant type_prop danger button) \<and>
   (\<forall>r. fires r color variant type_prop danger button \<longrightarrow>
        mergedColorVariant color variant type_prop danger button =
          rule_result r color variant type_prop danger button)"
proof (intro conjI)
  obtain c v where tm: "ButtonTypeMap (mergedType type_prop) = Some (Some c, Some v)"
    and ne: "c \<noteq> []" "v \<noteq> []"
    using ButtonTypeMap_defined by blast
  show "\<exists>c v. mergedColorVariant color variant type_prop danger button = (Some c, Some v) \<and>
           c \<noteq> [] \<and> v \<noteq> []"
    using tm ne
    by (auto simp add: mergedColorVariant_def truthy_str_def Let_def split: option.splits)
next
  show "\<exists>!r. fires r color variant type_prop danger button"
    by (simp add: fires_cases)
next
  show "\<forall>r. fires r color variant type_prop danger button \<longrightarrow>
        mergedColorVariant color variant type_prop danger button =
          rule_result r color variant type_prop danger button"
    by (auto simp add: fires_cases mergedColorVariant_def)
qed

theorem resolution_defined_by_one_rule_witness:
  "fires LegacySugar None (Some ''text'') None True None \<and>
   mergedColorVariant None (Some ''text'') None True None = (Some ''danger'', Some ''outlined'') \<and>
   \<not> fires ExplicitPair None (Some ''text'') None True None \<and>
   \<not> fires ContextPair None (Some ''text'') None True None \<and>
   \<not> fires DefaultFallback None (Some ''text'') None True None"
proof -
  have f: "fires LegacySugar None (Some ''text'') None True None"
    by (simp add: fires_def truthy_str_def)
  from resolution_defined_by_one_rule [of None "Some ''text''" None True None] f
  have "mergedColorVariant None (Some ''text'') None True None =
          rule_result LegacySugar None (Some ''text'') None True None"
    by blast
  moreover from resolution_defined_by_one_rule [of None "Some ''text''" None True None] f
  have "\<forall>r. fires r None (Some ''text'') None True None \<longrightarrow> r = LegacySugar"
    by blast
  ultimately show ?thesis using f by (auto simp add: mergedType_def)
qed

subsection \<open>The loading state\<close>

text \<open>The invariant holds after mounting and is kept by every event.\<close>

lemma cleanupTimer_clears:
  "loading_inv st \<Longrightarrow> timers (cleanupTimer st) = [] \<and> delayTimer (cleanupTimer st) = None"
  by (auto simp add: loading_inv_def cleanupTimer_def split: option.splits)

lemma cleanupTimer_keeps:
  "innerLoading (cleanupTimer st) = innerLoading st \<and> fired (cleanupTimer st) = fired st \<and>
   next_timer_id (cleanupTimer st) = next_timer_id st \<and> mounted (cleanupTimer st) = mounted st \<and>
   deps (cleanupTimer st) = deps st"
  by (simp add: cleanupTimer_def split: option.splits)

lemma layoutEffect_inv:
  assumes "timers st = []" and "0 < next_timer_id st" and "mounted st"
  shows "loading_inv (layoutEffect cfg st)"
  using assms by (simp add: loading_inv_def layoutEffect_def)

lemma mount_inv: "loading_inv (mount l)"
  unfolding mount_def by (rule layoutEffect_inv) simp_all

lemma update_inv: "loading_inv st \<Longrightarrow> loading_inv (update l st)"
  unfolding update_def
  by (auto intro!: layoutEffect_inv simp add: cleanupTimer_clears cleanupTimer_keeps)
     (simp add: loading_inv_def)

lemma unmount_inv: "loading_inv st \<Longrightarrow> loading_inv (unmount st)"
  using cleanupTimer_clears [of st] cleanupTimer_keeps [of st]
  by (auto simp add: unmount_def loading_inv_def)

lemma advance_no_timer: "timers st = [] \<Longrightarrow> advance dt st = st"
  by (simp add: advance_def)

lemma advance_one_timer:
  assumes "timers st = [\<lparr>timer_id = h, timer_delay = n, timer_elapsed = e\<rparr>]"
  shows "advance dt st =
           (if setTimeout_ms n \<le> e + dt
            then st\<lparr>timers := [],
                    delayTimer := (if delayTimer st = Some h then None else delayTimer st),
                    innerLoading := (if mounted st then True else innerLoading st),
                    fired := Suc (fired st)\<rparr>
            else st\<lparr>timers := [\<lparr>timer_id = h, timer_delay = n, timer_elapsed = e + dt\<rparr>]\<rparr>)"
  using assms by (simp add: advance_def timer_due_def fire_def)

lemma advance_inv: "loading_inv st \<Longrightarrow> loading_inv (advance dt st)"
proof (cases "timers st")
  case Nil
  assume "loading_inv st"
  with Nil show ?thesis by (simp add: advance_no_timer)
next
  case (Cons t ts)
  assume inv: "loading_inv st"
  from inv Cons obtain h cfg where h: "delayTimer st = Some h" and c: "deps st = Some cfg"
    and ts: "ts = []" and t: "timer_id t = h" "timer_delay t = delay cfg"
    by (auto simp add: loading_inv_def split: option.splits)
  from t have "t = \<lparr>timer_id = h, timer_delay = delay cfg, timer_elapsed = timer_elapsed t\<rparr>"
    by (cases t) simp
  with Cons ts
  have "timers st = [\<lparr>timer_id = h, timer_delay = delay cfg, timer_elapsed = timer_elapsed t\<rparr>]"
    by simp
  from advance_one_timer [OF this] inv h c show ?thesis
    by (auto simp add: loading_inv_def)
qed

lemma step_inv: "loading_inv st \<Longrightarrow> loading_inv (step st ev)"
  by (cases ev) (simp_all add: update_inv advance_inv unmount_inv)

lemma run_inv: "loading_inv st \<Longrightarrow> loading_inv (run st es)"
  unfolding run_def by (induction es arbitrary: st) (simp_all add: step_inv)

lemma reachable_inv: "loading_inv (run (mount l) es)"
  by (simp add: run_inv mount_inv)

text \<open>
  Runs of the automaton: with no timer pending, time passing changes nothing; with one
  timer pending for a finite delay, the flag is set when the delay has elapsed, by one
  callback.
\<close>

lemma run_Nil: "run st [] = st"
  by (simp add: run_def)

lemma run_Cons: "run st (ev # es) = run (step st ev) es"
  by (simp add: run_def)

lemma elapsed_of_nonneg: "\<forall>ev\<in>set es. quiet cfg ev \<Longrightarrow> 0 \<le> elapsed_of es"
proof (induction es)
  case Nil
  then show ?case by simp
next
  case (Cons ev es)
  then show ?case by (cases ev) simp_all
qed

lemma elapsed_of_no_time: "\<not> list_ex time_passes es \<Longrightarrow> elapsed_of es = 0"
proof (induction es)
  case Nil
  then show ?case by simp
next
  case (Cons ev es)
  then show ?case by (cases ev) simp_all
qed

lemma update_same: "deps st = Some (loadingOrDelay l) \<Longrightarrow> update l st = st"
  by (simp add: update_def)

lemma run_quiet_no_timer:
  assumes "timers st = []" and "deps st = Some cfg" and "\<forall>ev\<in>set es. quiet cfg ev"
  shows "run st es = st"
  using assms
proof (induction es)
  case Nil
  then show ?case by (simp add: run_Nil)
next
  case (Cons ev es)
  then have "step st ev = st"
    by (cases ev) (simp_all add: advance_no_timer update_same)
  with Cons show ?case by (simp add: run_Cons)
qed

lemma run_quiet_one_timer:
  assumes "timers st = [\<lparr>timer_id = h, timer_delay = n, timer_elapsed = e\<rparr>]"
    and "mounted st" and "deps st = Some cfg" and "\<forall>ev\<in>set es. quiet cfg ev"
  shows "innerLoading (run st es) =
           (if list_ex time_passes es \<and> setTimeout_ms n \<le> e + elapsed_of es then True
            else innerLoading st) \<and>
         fired (run st es) =
           (if list_ex time_passes es \<and> setTimeout_ms n \<le> e + elapsed_of es
            then Suc (fired st) else fired st)"
  using assms
proof (induction es arbitrary: st e)
  case Nil
  then show ?case by (simp add: run_Nil)
next
  case (Cons ev es)
  from Cons.prems(4) have rest: "\<forall>ev\<in>set es. quiet cfg ev" by simp
  show ?case
  proof (cases ev)
    case (Update l)
    with Cons.prems(3,4) have "step st ev = st" by (simp add: update_same)
    with Cons.IH [OF Cons.prems(1) Cons.prems(2) Cons.prems(3) rest] Update
    show ?thesis by (simp add: run_Cons)
  next
    case Unmount
    with Cons.prems(4) show ?thesis by simp
  next
    case (Advance t)
    have nonneg: "0 \<le> elapsed_of es" using rest by (rule elapsed_of_nonneg)
    let ?st' = "advance t st"
    show ?thesis
    proof (cases "setTimeout_ms n \<le> e + t")
      case True
      from advance_one_timer [OF Cons.prems(1), of t] True Cons.prems(2,3)
      have st': "timers ?st' = []" "deps ?st' = Some cfg" "innerLoading ?st' = True"
        "fired ?st' = Suc (fired st)"
        by simp_all
      from run_quiet_no_timer [OF st'(1) st'(2) rest] have "run ?st' es = ?st'" .
      moreover from True nonneg have "setTimeout_ms n \<le> e + (t + elapsed_of es)" by simp
      ultimately show ?thesis using st' Advance by (simp add: run_Cons)
    next
      case False
      from advance_one_timer [OF Cons.prems(1), of t] False Cons.prems(2,3)
      have st': "timers ?st' = [\<lparr>timer_id = h, timer_delay = n, timer_elapsed = e + t\<rparr>]"
        "mounted ?st'" "deps ?st' = Some cfg" "innerLoading ?st' = innerLoading st"
        "fired ?st' = fired st"
        by simp_all
      have eq: "(list_ex time_passes es \<and> setTimeout_ms n \<le> e + t + elapsed_of es) =
                (setTimeout_ms n \<le> e + (t + elapsed_of es))"
        using False elapsed_of_no_time [of es] by (cases "list_ex time_passes es") auto
      from Cons.IH [OF st'(1) st'(2) st'(3) rest] st'(4) st'(5) eq Advance
      show ?thesis by (simp add: run_Cons)
    qed
  qed
qed

lemma setTimeout_ms_whole:
  assumes "1 \<le> k" and "k \<le> 2147483647"
  shows "setTimeout_ms (Finite (real k)) = real k"
proof -
  have "int k mod 4294967296 = int k" using assms by simp
  moreover have "\<not> (2147483648 \<le> int k)" using assms by simp
  ultimately show ?thesis by (simp add: webidl_long_def)
qed

lemma layoutEffect_sets_timer:
  assumes "js_gt_zero (delay cfg)" and "timers st = []"
  shows "timers (layoutEffect cfg st) =
           [\<lparr>timer_id = next_timer_id st, timer_delay = delay cfg, timer_elapsed = 0\<rparr>] \<and>
         innerLoading (layoutEffect cfg st) = innerLoading st \<and>
         fired (layoutEffect cfg st) = fired st \<and>
         mounted (layoutEffect cfg st) = mounted st \<and>
         delayTimer (layoutEffect cfg st) = Some (next_timer_id st)"
  using assms by (simp add: layoutEffect_def)

lemma layoutEffect_immediate:
  assumes "\<not> js_gt_zero (delay cfg)"
  shows "innerLoading (layoutEffect cfg st) = loading cfg \<and>
         timers (layoutEffect cfg st) = timers st"
  using assms by (simp add: layoutEffect_def)

lemma loadingOrDelay_positive:
  "0 < d \<Longrightarrow> loadingOrDelay (Some (LoadingObject (JNumber (Finite d)) i)) =
     \<lparr>loading = False, delay = Finite d\<rparr>"
  by (simp add: loadingOrDelay_def loading_default_def valid_delay_def)

lemma update_changed:
  assumes "loading_inv st" and "mounted st" and "deps st \<noteq> Some (loadingOrDelay l)"
  shows "update l st = layoutEffect (loadingOrDelay l) (cleanupTimer st) \<and>
         timers (cleanupTimer st) = []"
  using assms by (simp add: update_def cleanupTimer_clears)

lemma timers_at_most_one: "loading_inv st \<Longrightarrow> length (timers st) \<le> 1"
proof -
  assume "loading_inv st"
  then have "timers st = [] \<or> length (map timer_id (timers st)) = 1"
    by (auto simp add: loading_inv_def split: option.splits)
  then show ?thesis by auto
qed

lemma timers_current:
  assumes "loading_inv st" and "t \<in> set (timers st)"
  shows "delayTimer st = Some (timer_id t) \<and> map_option delay (deps st) = Some (timer_delay t)"
proof -
  from assms obtain h cfg where h: "delayTimer st = Some h" "deps st = Some cfg"
    "map timer_id (timers st) = [h]" "map timer_delay (timers st) = [delay cfg]"
    by (auto simp add: loading_inv_def split: option.splits)
  then obtain t' where "timers st = [t']" by (cases "timers st") auto
  with assms(2) h show ?thesis by simp
qed

lemma unmount_final:
  assumes "loading_inv st"
  shows "timers (unmount st) = []" and "run (unmount st) es = unmount st"
proof -
  from assms show t: "timers (unmount st) = []"
    using cleanupTimer_clears [of st] by (auto simp add: unmount_def loading_inv_def split: option.splits)
  have m: "\<not> mounted (unmount st)" by (simp add: unmount_def)
  have "\<And>s. \<not> mounted s \<Longrightarrow> timers s = [] \<Longrightarrow> run s es = s"
  proof (induction es)
    case Nil
    then show ?case by (simp add: run_Nil)
  next
    case (Cons ev es)
    have "step s ev = s"
      using Cons.prems by (cases ev) (simp_all add: update_def advance_no_timer unmount_def)
    with Cons show ?case by (simp add: run_Cons)
  qed
  from this [OF m t] show "run (unmount st) es = unmount st" .
qed

lemma update_immediate:
  assumes "loading_inv st" and "mounted st" and "\<not> js_gt_zero (delay (loadingOrDelay l))"
  shows "innerLoading (update l st) = loading (loadingOrDelay l)"
proof (cases "deps st = Some (loadingOrDelay l)")
  case True
  with assms show ?thesis by (simp add: update_def loading_inv_def)
next
  case False
  with assms show ?thesis by (simp add: update_def layoutEffect_immediate)
qed

lemma mount_flag: "innerLoading (mount l) = loading (loadingOrDelay l)"
  by (simp add: mount_def layoutEffect_def)

lemmas automaton_eval =
  run_def mount_def update_def unmount_def advance_def layoutEffect_def cleanupTimer_def
  fire_def timer_due_def webidl_long_def loadingOrDelay_def loading_default_def valid_delay_def

text \<open>
  C4. The normalisation of the \<^verbatim>\<open>loading\<close> prop is a total function without a
  failing branch: \<^verbatim>\<open>false\<close> (also an absent prop) gives inactive; \<^verbatim>\<open>true\<close> gives
  active at once; an object whose \<^verbatim>\<open>delay\<close> is not a number, is absent or is NaN gets
  delay 0 and is active at once; an object with \<^verbatim>\<open>delay <= 0\<close> is active at once; an
  object with \<^verbatim>\<open>delay > 0\<close> starts inactive with that delay, a timer pending. Every
  \<^verbatim>\<open>delay\<close> falls under one of these cases. An activation that is immediate does not
  lag: the flag has the normalised value in the state in which mounting, or an update
  of a mounted instance, leaves the component, with no time passing.
\<close>

theorem loading_normalization:
  fixes l0 :: "LoadingProp option" and es :: "event list"
  defines "st \<equiv> run (mount l0) es"
  shows
  "getLoadingConfig (LoadingBool False) = \<lparr>loading = False, delay = Finite 0\<rparr> \<and>
   getLoadingConfig (LoadingBool True) = \<lparr>loading = True, delay = Finite 0\<rparr> \<and>
   loadingOrDelay None = \<lparr>loading = False, delay = Finite 0\<rparr> \<and>
   (\<not> typeof_number d \<or> d = JNumber NaN \<longrightarrow>
      getLoadingConfig (LoadingObject d i) = \<lparr>loading = True, delay = Finite 0\<rparr>) \<and>
   (typeof_number d \<longrightarrow> (\<exists>n. d = JNumber n \<and> (n = NaN \<or> js_le_zero n \<or> js_gt_zero n))) \<and>
   (js_le_zero n \<longrightarrow>
      getLoadingConfig (LoadingObject (JNumber n) i) = \<lparr>loading = True, delay = n\<rparr>) \<and>
   (js_gt_zero n \<longrightarrow>
      getLoadingConfig (LoadingObject (JNumber n) i) = \<lparr>loading = False, delay = n\<rparr> \<and>
      \<not> innerLoading (mount (Some (LoadingObject (JNumber n) i))) \<and>
      timers (mount (Some (LoadingObject (JNumber n) i))) =
        [\<lparr>timer_id = 1, timer_delay = n, timer_elapsed = 0\<rparr>]) \<and>
   innerLoading (mount l) = loading (loadingOrDelay l) \<and>
   (mounted st \<and> \<not> js_gt_zero (delay (loadingOrDelay l)) \<longrightarrow>
      innerLoading (update l st) = loading (loadingOrDelay l))"
proof (intro conjI impI)
  show "getLoadingConfig (LoadingBool False) = \<lparr>loading = False, delay = Finite 0\<rparr>"
    and "getLoadingConfig (LoadingBool True) = \<lparr>loading = True, delay = Finite 0\<rparr>"
    and "loadingOrDelay None = \<lparr>loading = False, delay = Finite 0\<rparr>"
    by (simp_all add: loadingOrDelay_def loading_default_def)
next
  assume "\<not> typeof_number d \<or> d = JNumber NaN"
  then show "getLoadingConfig (LoadingObject d i) = \<lparr>loading = True, delay = Finite 0\<rparr>"
    by (cases d) (auto simp add: valid_delay_def)
next
  assume "typeof_number d"
  then obtain n where "d = JNumber n" by (cases d) simp_all
  moreover have "n = NaN \<or> js_le_zero n \<or> js_gt_zero n" by (cases n) auto
  ultimately show "\<exists>n. d = JNumber n \<and> (n = NaN \<or> js_le_zero n \<or> js_gt_zero n)" by blast
next
  assume "js_le_zero n"
  then show "getLoadingConfig (LoadingObject (JNumber n) i) = \<lparr>loading = True, delay = n\<rparr>"
    by (cases n) (simp_all add: valid_delay_def)
next
  assume gt: "js_gt_zero n"
  then show cfg: "getLoadingConfig (LoadingObject (JNumber n) i) = \<lparr>loading = False, delay = n\<rparr>"
    by (cases n) (simp_all add: valid_delay_def)
  from gt cfg show "\<not> innerLoading (mount (Some (LoadingObject (JNumber n) i)))"
    by (simp add: mount_def layoutEffect_def loadingOrDelay_def loading_default_def)
  from gt cfg show "timers (mount (Some (LoadingObject (JNumber n) i))) =
        [\<lparr>timer_id = 1, timer_delay = n, timer_elapsed = 0\<rparr>]"
    by (simp add: mount_def layoutEffect_def loadingOrDelay_def loading_default_def)
next
  show "innerLoading (mount l) = loading (loadingOrDelay l)" by (rule mount_flag)
next
  assume "mounted st \<and> \<not> js_gt_zero (delay (loadingOrDelay l))"
  then show "innerLoading (update l st) = loading (loadingOrDelay l)"
    unfolding st_def by (simp add: update_immediate reachable_inv)
qed


theorem loading_normalization_witness:
  "getLoadingConfig (LoadingObject (JString ''soon'') JUndefined) =
     \<lparr>loading = True, delay = Finite 0\<rparr> \<and>
   getLoadingConfig (LoadingObject JUndefined (JObject 7)) =
     \<lparr>loading = True, delay = Finite 0\<rparr> \<and>
   getLoadingConfig (LoadingObject (JNumber NaN) JUndefined) =
     \<lparr>loading = True, delay = Finite 0\<rparr> \<and>
   getLoadingConfig (LoadingObject (JNumber (Finite (- 5))) JUndefined) =
     \<lparr>loading = True, delay = Finite (- 5)\<rparr> \<and>
   getLoadingConfig (LoadingObject (JNumber (Finite 300)) JUndefined) =
     \<lparr>loading = False, delay = Finite 300\<rparr> \<and>
   innerLoading
     (update (Some (LoadingBool True))
        (run (mount (Some (LoadingObject (JNumber (Finite 300)) JUndefined))) [Advance 100]))"
proof -
  note T = loading_normalization
  have a: "getLoadingConfig (LoadingObject (JString ''soon'') JUndefined) =
     \<lparr>loading = True, delay = Finite 0\<rparr>"
    using T [where d = "JString ''soon''" and i = JUndefined] by simp
  have b: "getLoadingConfig (LoadingObject JUndefined (JObject 7)) =
     \<lparr>loading = True, delay = Finite 0\<rparr>"
    using T [where d = JUndefined and i = "JObject 7"] by simp
  have c: "getLoadingConfig (LoadingObject (JNumber NaN) JUndefined) =
     \<lparr>loading = True, delay = Finite 0\<rparr>"
    using T [where d = "JNumber NaN" and i = JUndefined] by simp
  have d: "getLoadingConfig (LoadingObject (JNumber (Finite (- 5))) JUndefined) =
     \<lparr>loading = True, delay = Finite (- 5)\<rparr>"
    using T [where n = "Finite (- 5)" and i = JUndefined] by simp
  have e: "getLoadingConfig (LoadingObject (JNumber (Finite 300)) JUndefined) =
     \<lparr>loading = False, delay = Finite 300\<rparr>"
    using T [where n = "Finite 300" and i = JUndefined] by simp
  have m: "mounted (run (mount (Some (LoadingObject (JNumber (Finite 300)) JUndefined))) [Advance 100])"
    by (simp add: automaton_eval)
  have z: "\<not> js_gt_zero (delay (loadingOrDelay (Some (LoadingBool True))))"
    by (simp add: loadingOrDelay_def loading_default_def)
  have f: "innerLoading
     (update (Some (LoadingBool True))
        (run (mount (Some (LoadingObject (JNumber (Finite 300)) JUndefined))) [Advance 100]))"
    using T [where ?l0.0 = "Some (LoadingObject (JNumber (Finite 300)) JUndefined)"
        and es = "[Advance 100]" and l = "Some (LoadingBool True)"] m z
    by (simp add: loadingOrDelay_def loading_default_def)
  from a b c d e f show ?thesis by simp
qed

text \<open>
  C5, as stated, fails in two ways. A specification with a positive delay does not
  start again from idle: with the flag active (\<^verbatim>\<open>loading = true\<close>), a change to
  \<^verbatim>\<open>{delay: 300}\<close> leaves the flag active, here 100 ms after the change. And the flag
  does not stay false until any positive delay has elapsed: the component hands the
  delay to the host as it is, and for \<^verbatim>\<open>{delay: 3000000000}\<close> the host's timer fires at
  once, so that the flag is active 60 ms after mounting.
\<close>

theorem delayed_loading_counterexample:
  "\<not> (innerLoading
        (run (mount (Some (LoadingBool True)))
           [Update (Some (LoadingObject (JNumber (Finite 300)) JUndefined)), Advance 100])
      = False) \<and>
   \<not> (innerLoading
        (run (mount (Some (LoadingObject (JNumber (Finite 3000000000)) JUndefined)))
           [Advance 60])
      = False)"
  by (simp add: automaton_eval)

text \<open>
  C5, amended. A specification with a positive delay leaves the flag as it was when the
  specification took effect (false on first mount) until the host's timer for the delay
  fires, and then the flag is true, set by exactly one timer callback; for a delay of a
  whole number of milliseconds from 1 to 2147483647 that is once the delay has elapsed.
  Renders that leave the normalised specification unchanged leave the state, and so
  the pending timer, as they are. On every change of the normalised specification of a
  mounted instance the cleanup of the previous effect run leaves no timer pending
  before the effect runs again, so that every timer pending afterwards was set by the
  new run; at any time every pending timer is the one of the current run, at most one
  timer is pending, and unmounting leaves none pending, after which nothing changes
  the state.
\<close>

theorem delayed_loading_timer:
  fixes l0 :: "LoadingProp option" and es0 :: "event list"
  defines "st \<equiv> run (mount l0) es0"
  defines "delayed n i \<equiv> Some (LoadingObject (JNumber n) i)"
  defines "fires_in n es \<equiv> list_ex time_passes es \<and> setTimeout_ms n \<le> elapsed_of es"
  shows
  "(js_gt_zero n \<and> (\<forall>ev\<in>set es. quiet (loadingOrDelay (delayed n i)) ev) \<longrightarrow>
      innerLoading (run (mount (delayed n i)) es) = fires_in n es \<and>
      fired (run (mount (delayed n i)) es) = (if fires_in n es then 1 else 0)) \<and>
   (js_gt_zero n \<and> (\<forall>ev\<in>set es. quiet (loadingOrDelay (delayed n i)) ev) \<and> mounted st \<and>
    deps st \<noteq> Some (loadingOrDelay (delayed n i)) \<longrightarrow>
      innerLoading (run (update (delayed n i) st) es) =
        (if fires_in n es then True else innerLoading st) \<and>
      fired (run (update (delayed n i) st) es) =
        (if fires_in n es then Suc (fired st) else fired st)) \<and>
   (1 \<le> k \<and> k \<le> 2147483647 \<longrightarrow>
      setTimeout_ms (Finite (real k)) = real k \<and>
      ((\<forall>ev\<in>set es. quiet (loadingOrDelay (delayed (Finite (real k)) i)) ev) \<longrightarrow>
         innerLoading (run (mount (delayed (Finite (real k)) i)) es) = (real k \<le> elapsed_of es))) \<and>
   (deps st = Some (loadingOrDelay l) \<longrightarrow> update l st = st) \<and>
   (mounted st \<and> deps st \<noteq> Some (loadingOrDelay l) \<longrightarrow>
      update l st = layoutEffect (loadingOrDelay l) (cleanupTimer st) \<and>
      timers (cleanupTimer st) = [] \<and>
      (\<forall>t\<in>set (timers (update l st)).
         next_timer_id st \<le> timer_id t \<and> timer_delay t = delay (loadingOrDelay l))) \<and>
   (\<forall>t\<in>set (timers st).
      delayTimer st = Some (timer_id t) \<and> map_option delay (deps st) = Some (timer_delay t)) \<and>
   length (timers st) \<le> 1 \<and>
   timers (unmount st) = [] \<and>
   run (unmount st) es' = unmount st"
proof -
  have inv: "loading_inv st" unfolding st_def by (rule reachable_inv)
  have cfg: "delay (loadingOrDelay (delayed m j)) = m" if "js_gt_zero m" for m j
    using that
    by (cases m) (simp_all add: delayed_def loadingOrDelay_def loading_default_def valid_delay_def)
  have first: "innerLoading (run (mount (delayed m j)) es) = fires_in m es \<and>
      fired (run (mount (delayed m j)) es) = (if fires_in m es then 1 else 0)"
    if "js_gt_zero m" and "\<forall>ev\<in>set es. quiet (loadingOrDelay (delayed m j)) ev" for m j
  proof -
    let ?cfg = "loadingOrDelay (delayed m j)"
    let ?m = "mount (delayed m j)"
    from that(1) have lo: "\<not> loading ?cfg"
      by (cases m) (simp_all add: delayed_def loadingOrDelay_def loading_default_def valid_delay_def)
    from that(1) cfg [OF that(1)] lo
    have m: "timers ?m = [\<lparr>timer_id = 1, timer_delay = m, timer_elapsed = 0\<rparr>]"
      "mounted ?m" "deps ?m = Some ?cfg" "\<not> innerLoading ?m" "fired ?m = 0"
      by (simp_all add: mount_def layoutEffect_def)
    from run_quiet_one_timer [OF m(1) m(2) m(3) that(2)] m(4) m(5) show ?thesis
      by (simp add: fires_in_def)
  qed
  have later: "innerLoading (run (update (delayed n i) st) es) =
        (if fires_in n es then True else innerLoading st) \<and>
      fired (run (update (delayed n i) st) es) =
        (if fires_in n es then Suc (fired st) else fired st)"
    if "js_gt_zero n" and "\<forall>ev\<in>set es. quiet (loadingOrDelay (delayed n i)) ev"
      and "mounted st" and "deps st \<noteq> Some (loadingOrDelay (delayed n i))"
  proof -
    let ?cfg = "loadingOrDelay (delayed n i)"
    let ?u = "update (delayed n i) st"
    from that(1) cfg [OF that(1)] have gt: "js_gt_zero (delay ?cfg)" by simp
    from update_changed [OF inv that(3) that(4)]
    have u: "?u = layoutEffect ?cfg (cleanupTimer st)" "timers (cleanupTimer st) = []"
      by simp_all
    from layoutEffect_sets_timer [OF gt u(2)] u(1) cfg [OF that(1)] cleanupTimer_keeps [of st]
      that(3)
    have s: "timers ?u = [\<lparr>timer_id = next_timer_id st, timer_delay = n, timer_elapsed = 0\<rparr>]"
      "mounted ?u" "innerLoading ?u = innerLoading st" "fired ?u = fired st"
      by simp_all
    from u(1) gt have d: "deps ?u = Some ?cfg" by (simp add: layoutEffect_def)
    from run_quiet_one_timer [OF s(1) s(2) d that(2)] s(3) s(4) show ?thesis
      by (simp add: fires_in_def)
  qed
  have whole: "setTimeout_ms (Finite (real k)) = real k \<and>
      ((\<forall>ev\<in>set es. quiet (loadingOrDelay (delayed (Finite (real k)) i)) ev) \<longrightarrow>
         innerLoading (run (mount (delayed (Finite (real k)) i)) es) = (real k \<le> elapsed_of es))"
    if "1 \<le> k" and "k \<le> 2147483647"
  proof (intro conjI impI)
    show ms: "setTimeout_ms (Finite (real k)) = real k"
      using that by (rule setTimeout_ms_whole)
    assume q: "\<forall>ev\<in>set es. quiet (loadingOrDelay (delayed (Finite (real k)) i)) ev"
    from that(1) have gt: "js_gt_zero (Finite (real k))" by simp
    from that(1) have "\<not> list_ex time_passes es \<Longrightarrow> \<not> real k \<le> elapsed_of es"
      by (simp add: elapsed_of_no_time)
    with first [OF gt q] ms
    show "innerLoading (run (mount (delayed (Finite (real k)) i)) es) = (real k \<le> elapsed_of es)"
      by (auto simp add: fires_in_def)
  qed
  have same: "update l st = st" if "deps st = Some (loadingOrDelay l)"
    using that by (rule update_same)
  have change: "update l st = layoutEffect (loadingOrDelay l) (cleanupTimer st) \<and>
      timers (cleanupTimer st) = [] \<and>
      (\<forall>t\<in>set (timers (update l st)).
         next_timer_id st \<le> timer_id t \<and> timer_delay t = delay (loadingOrDelay l))"
    if "mounted st" and "deps st \<noteq> Some (loadingOrDelay l)"
  proof -
    from update_changed [OF inv that]
    have u: "update l st = layoutEffect (loadingOrDelay l) (cleanupTimer st)"
      "timers (cleanupTimer st) = []"
      by simp_all
    have "\<forall>t\<in>set (timers (layoutEffect (loadingOrDelay l) (cleanupTimer st))).
         next_timer_id st \<le> timer_id t \<and> timer_delay t = delay (loadingOrDelay l)"
      using u(2) cleanupTimer_keeps [of st] by (simp add: layoutEffect_def)
    with u show ?thesis by simp
  qed
  have current: "\<forall>t\<in>set (timers st).
      delayTimer st = Some (timer_id t) \<and> map_option delay (deps st) = Some (timer_delay t)"
    using timers_current [OF inv] by blast
  have one: "length (timers st) \<le> 1" using inv by (rule timers_at_most_one)
  have gone: "timers (unmount st) = []" "run (unmount st) es' = unmount st"
    using unmount_final [OF inv] by simp_all
  from first [of n i] later whole same change current one gone show ?thesis by blast
qed

theorem delayed_loading_timer_witness:
  "\<not> innerLoading
       (run (update (Some (LoadingObject (JNumber (Finite 500)) JUndefined))
               (run (mount (Some (LoadingObject (JNumber (Finite 300)) JUndefined))) [Advance 100]))
          [Advance 250, Update (Some (LoadingObject (JNumber (Finite 500)) (JObject 1))),
           Advance 200]) \<and>
   innerLoading
       (run (update (Some (LoadingObject (JNumber (Finite 500)) JUndefined))
               (run (mount (Some (LoadingObject (JNumber (Finite 300)) JUndefined))) [Advance 100]))
          [Advance 250, Update (Some (LoadingObject (JNumber (Finite 500)) (JObject 1))),
           Advance 250]) \<and>
   fired
       (run (update (Some (LoadingObject (JNumber (Finite 500)) JUndefined))
               (run (mount (Some (LoadingObject (JNumber (Finite 300)) JUndefined))) [Advance 100]))
          [Advance 250, Update (Some (LoadingObject (JNumber (Finite 500)) (JObject 1))),
           Advance 250]) = 1 \<and>
   innerLoading (run (mount (Some (LoadingObject (JNumber (Finite 300)) JUndefined)))
          [Advance 200, Update (Some (LoadingObject (JNumber (Finite 300)) JUndefined)),
           Advance 100]) \<and>
   \<not> innerLoading (run (mount (Some (LoadingObject (JNumber (Finite 300)) JUndefined)))
          [Advance 200, Update (Some (LoadingObject (JNumber (Finite 300)) JUndefined)),
           Advance 99])"
proof -
  let ?l300 = "Some (LoadingObject (JNumber (Finite 300)) JUndefined)"
  let ?l500 = "Some (LoadingObject (JNumber (Finite 500)) JUndefined)"
  let ?l500' = "Some (LoadingObject (JNumber (Finite 500)) (JObject 1))"
  let ?st = "run (mount ?l300) [Advance 100]"
  have m: "mounted ?st" and f: "fired ?st = 0" and i: "\<not> innerLoading ?st"
    and d: "deps ?st \<noteq> Some (loadingOrDelay ?l500)"
    by (simp_all add: automaton_eval)
  have p: "js_gt_zero (Finite 500)" by simp
  have ms: "setTimeout_ms (Finite 500) = 500"
    by (simp add: webidl_long_def)
  have q1: "\<forall>ev\<in>set [Advance 250, Update ?l500', Advance 200]. quiet (loadingOrDelay ?l500) ev"
    and q2: "\<forall>ev\<in>set [Advance 250, Update ?l500', Advance 250]. quiet (loadingOrDelay ?l500) ev"
    by (simp_all add: loadingOrDelay_def loading_default_def valid_delay_def)
  have k: "(1::nat) \<le> 300" "(300::nat) \<le> 2147483647" by simp_all
  have q3: "\<forall>ev\<in>set [Advance 200, Update ?l300, Advance 100].
      quiet (loadingOrDelay (Some (LoadingObject (JNumber (Finite (real 300))) JUndefined))) ev"
    and q4: "\<forall>ev\<in>set [Advance 200, Update ?l300, Advance 99].
      quiet (loadingOrDelay (Some (LoadingObject (JNumber (Finite (real 300))) JUndefined))) ev"
    by simp_all
  note T = delayed_loading_timer [where ?l0.0 = ?l300 and ?es0.0 = "[Advance 100]" and i = JUndefined]
  note later = T [THEN conjunct2, THEN conjunct1, rule_format]
  from later [where n = "Finite 500" and es = "[Advance 250, Update ?l500', Advance 200]"]
    p q1 m d f i ms
  have r1: "\<not> innerLoading (run (update ?l500 ?st) [Advance 250, Update ?l500', Advance 200])"
    by simp
  from later [where n = "Finite 500" and es = "[Advance 250, Update ?l500', Advance 250]"]
    p q2 m d f i ms
  have r2: "innerLoading (run (update ?l500 ?st) [Advance 250, Update ?l500', Advance 250]) \<and>
    fired (run (update ?l500 ?st) [Advance 250, Update ?l500', Advance 250]) = 1"
    by simp
  from delayed_loading_timer
      [where k = 300 and es = "[Advance 200, Update ?l300, Advance 100]" and i = JUndefined,
       THEN conjunct2, THEN conjunct2, THEN conjunct1] k q3
  have r3: "innerLoading (run (mount ?l300) [Advance 200, Update ?l300, Advance 100])"
    by simp
  from delayed_loading_timer
      [where k = 300 and es = "[Advance 200, Update ?l300, Advance 99]" and i = JUndefined,
       THEN conjunct2, THEN conjunct2, THEN conjunct1] k q4
  have r4: "\<not> innerLoading (run (mount ?l300) [Advance 200, Update ?l300, Advance 99])"
    by simp
  from r1 r2 r3 r4 show ?thesis by blast
qed

subsection \<open>The click handler and the link element\<close>

text \<open>
  C6. The resolved disabled flag is the \<^verbatim>\<open>disabled\<close> prop when given, else the
  ambient one. For every event, when the loading flag is active or the resolved
  disabled flag is true, \<^verbatim>\<open>handleClick\<close> prevents the default behaviour of the event
  and does not call the \<^verbatim>\<open>onClick\<close> prop; otherwise it calls the \<^verbatim>\<open>onClick\<close> prop, when
  one is given, exactly once with the event, cast to the event of an anchor when the
  props have \<^verbatim>\<open>href\<close> and of a button otherwise, and prevents nothing.
\<close>

theorem click_gate:
  fixes e :: 'e
  defines "gate il cd d h k \<equiv> handleClick il (mergedDisabled cd d) h k e"
  shows
  "mergedDisabled (Some b) disabled = b \<and> mergedDisabled None disabled = disabled \<and>
   (innerLoading_now \<or> mergedDisabled customDisabled disabled \<longrightarrow>
      gate innerLoading_now customDisabled disabled has_onClick href_in_props = [PreventDefault]) \<and>
   (\<not> innerLoading_now \<and> \<not> mergedDisabled customDisabled disabled \<longrightarrow>
      gate innerLoading_now customDisabled disabled True href_in_props =
        [OnClick (if href_in_props then AnchorMouseEvent e else ButtonMouseEvent e)] \<and>
      gate innerLoading_now customDisabled disabled False href_in_props = [])"
  by (simp add: gate_def handleClick_def mergedDisabled_def)

theorem click_gate_witness:
  "handleClick True (mergedDisabled None False) True True ''click'' = [PreventDefault] \<and>
   handleClick False (mergedDisabled (Some True) False) True False ''click'' = [PreventDefault] \<and>
   handleClick False (mergedDisabled (Some False) True) True True ''click'' =
     [OnClick (AnchorMouseEvent ''click'')] \<and>
   handleClick False (mergedDisabled None False) True False ''click'' =
     [OnClick (ButtonMouseEvent ''click'')]"
proof -
  note T = click_gate [where e = "''click''" and has_onClick = True]
  have a: "handleClick True (mergedDisabled None False) True True ''click'' = [PreventDefault]"
    using T [where innerLoading_now = True and customDisabled = None and disabled = False
        and href_in_props = True]
    by (auto simp add: mergedDisabled_def)
  have b: "handleClick False (mergedDisabled (Some True) False) True False ''click'' = [PreventDefault]"
    using T [where innerLoading_now = False and customDisabled = "Some True" and disabled = False
        and href_in_props = False]
    by (auto simp add: mergedDisabled_def)
  have c: "handleClick False (mergedDisabled (Some False) True) True True ''click'' =
     [OnClick (AnchorMouseEvent ''click'')]"
    using T [where innerLoading_now = False and customDisabled = "Some False"
        and disabled = True and href_in_props = True]
    by (auto simp add: mergedDisabled_def)
  have d: "handleClick False (mergedDisabled None False) True False ''click'' =
     [OnClick (ButtonMouseEvent ''click'')]"
    using T [where innerLoading_now = False and customDisabled = None
        and disabled = False and href_in_props = False]
    by (auto simp add: mergedDisabled_def)
  from a b c d show ?thesis by simp
qed

text \<open>
  C7. With an \<^verbatim>\<open>href\<close> present, the element is an anchor whether disabled or not. When
  the resolved disabled flag is true the anchor has no \<^verbatim>\<open>href\<close>, \<^verbatim>\<open>tabIndex\<close> -1,
  \<^verbatim>\<open>aria-disabled\<close> true and the disabled class; when it is false the \<^verbatim>\<open>href\<close> is
  passed through and \<^verbatim>\<open>tabIndex\<close> is 0.
\<close>

theorem disabled_link:
  fixes customDisabled :: "bool option" and disabled :: bool
  defines "off \<equiv> mergedDisabled customDisabled disabled"
  shows
  "(off \<longrightarrow>
      render_element (Some target) off unbordered innerLoading_now =
        Anchor \<lparr>a_disabled_class = True, a_href = None, a_tabIndex = - 1,
                a_aria_disabled = True\<rparr>) \<and>
   (\<not> off \<longrightarrow>
      render_element (Some target) off unbordered innerLoading_now =
        Anchor \<lparr>a_disabled_class = False, a_href = Some target, a_tabIndex = 0,
                a_aria_disabled = False\<rparr>)"
  by (simp add: off_def render_element_def)

theorem disabled_link_witness:
  "render_element (Some ''/x'') (mergedDisabled (Some True) False) False False =
     Anchor \<lparr>a_disabled_class = True, a_href = None, a_tabIndex = - 1, a_aria_disabled = True\<rparr> \<and>
   render_element (Some ''/x'') (mergedDisabled None False) False False =
     Anchor \<lparr>a_disabled_class = False, a_href = Some ''/x'', a_tabIndex = 0,
             a_aria_disabled = False\<rparr>"
proof -
  have on: "mergedDisabled (Some True) False" and off: "\<not> mergedDisabled None False"
    by (simp_all add: mergedDisabled_def)
  from disabled_link [where customDisabled = "Some True" and disabled = False, THEN conjunct1,
      rule_format, OF on]
    disabled_link [where customDisabled = None and disabled = False, THEN conjunct2,
      rule_format, OF off]
  show ?thesis by simp
qed

subsection \<open>Icons and classes\<close>

lemma isMountRef_renders: "foldl isMountRef_step r (replicate n Render) = r"
  by (induction n) simp_all

text \<open>
  The branches of \<^verbatim>\<open>iconNode\<close> in order, and the first-mount flag. The second branch
  is taken on the \<^verbatim>\<open>loading\<close> prop alone: by an object with a truthy \<^verbatim>\<open>icon\<close>,
  whatever the loading flag is.
\<close>

lemma iconNode_branches:
  fixes loading_prop :: LoadingProp
  defines "custom \<equiv>
    loading_prop_truthy loading_prop \<and> typeof_object loading_prop \<and>
    truthy (loading_icon loading_prop)"
  shows
  "(truthy icon \<and> \<not> innerLoading_now \<longrightarrow>
      iconNode icon innerLoading_now loading_prop isMount = IconWrapper icon) \<and>
   (\<not> (truthy icon \<and> \<not> innerLoading_now) \<and> custom \<longrightarrow>
      iconNode icon innerLoading_now loading_prop isMount =
        IconWrapper (loading_icon loading_prop)) \<and>
   (\<not> (truthy icon \<and> \<not> innerLoading_now) \<and> \<not> custom \<longrightarrow>
      iconNode icon innerLoading_now loading_prop isMount =
        DefaultLoadingIcon (truthy icon) innerLoading_now isMount) \<and>
   custom = (\<exists>d c. loading_prop = LoadingObject d c \<and> truthy c) \<and>
   isMountRef_after [] = True \<and>
   isMountRef_after (Render # MountEffect # replicate n Render) = False \<and>
   isMountRef_after (evs @ [UnmountCleanup]) = True"
proof -
  have "custom = (\<exists>d c. loading_prop = LoadingObject d c \<and> truthy c)"
    unfolding custom_def by (cases loading_prop) simp_all
  then show ?thesis
    by (simp add: custom_def iconNode_def isMountRef_after_def isMountRef_initial_def
        isMountRef_renders)
qed

text \<open>
  C8. The priority is: the supplied icon when the button is not currently loading;
  otherwise, when loading, the custom icon of the loading specification; otherwise the
  default spinner. The comment on the second branch in the source says the same (in
  loading state and with a custom loading icon), and the default spinner is given the
  loading flag. The code tests the \<^verbatim>\<open>loading\<close> prop instead of the flag: with
  \<^verbatim>\<open>loading = {delay: 1000, icon: X}\<close> and no \<^verbatim>\<open>icon\<close>, 999 ms after mounting the flag is
  still inactive, and what is rendered is the custom icon \<open>X\<close>, not the default spinner
  of an inactive button.
\<close>

theorem custom_loading_icon_before_loading:
  "\<not> innerLoading
       (run (mount (Some (LoadingObject (JNumber (Finite 1000)) (JObject 2)))) [Advance 999]) \<and>
   iconNode JUndefined
       (innerLoading
          (run (mount (Some (LoadingObject (JNumber (Finite 1000)) (JObject 2)))) [Advance 999]))
       (loading_default (Some (LoadingObject (JNumber (Finite 1000)) (JObject 2)))) False
     = IconWrapper (JObject 2) \<and>
   iconNode JUndefined
       (innerLoading
          (run (mount (Some (LoadingObject (JNumber (Finite 1000)) (JObject 2)))) [Advance 999]))
       (loading_default (Some (LoadingObject (JNumber (Finite 1000)) (JObject 2)))) False
     \<noteq> DefaultLoadingIcon False False False"
  by (simp add: automaton_eval iconNode_def)

lemma truthy_absent: "\<not> truthy c \<and> c \<noteq> JNumber (Finite 0) \<longleftrightarrow> spec_children_absent c"
  by (cases c) auto

text \<open>
  C9. The class \<^verbatim>\<open>-icon-only\<close> is emitted exactly when the children are absent (falsy
  and not the number zero) and an icon is present (a supplied icon, or the loading icon
  while the loading flag is active). With the number 0 as children, which counts as
  present, it is not emitted.
\<close>

theorem icon_only_detection:
  "has_class ''-icon-only'' i =
     (spec_children_absent (in_children i) \<and>
      spec_icon_present (in_icon i) (in_innerLoading i)) \<and>
   \<not> has_class ''-icon-only'' (i\<lparr>in_children := JNumber (Finite 0)\<rparr>) \<and>
   \<not> spec_children_absent (JNumber (Finite 0))"
  by (simp add: has_class_def suffix_classes_def iconType_def spec_icon_present_def
      truthy_absent [symmetric])

theorem icon_only_detection_witness:
  "has_class ''-icon-only''
      \<lparr>in_danger = False, in_children = JUndefined, in_icon = JUndefined, in_ghost = False,
       in_unbordered = False, in_innerLoading = True, in_hasTwoCNChar = False,
       in_mergedInsertSpace = True, in_block = False, in_rtl = False, in_icon_end = False\<rparr> \<and>
   \<not> has_class ''-icon-only''
      \<lparr>in_danger = False, in_children = JNumber (Finite 0), in_icon = JObject 1, in_ghost = False,
       in_unbordered = False, in_innerLoading = True, in_hasTwoCNChar = False,
       in_mergedInsertSpace = True, in_block = False, in_rtl = False, in_icon_end = False\<rparr>"
proof -
  let ?i = "\<lparr>in_danger = False, in_children = JUndefined, in_icon = JUndefined,
       in_ghost = False, in_unbordered = False, in_innerLoading = True, in_hasTwoCNChar = False,
       in_mergedInsertSpace = True, in_block = False, in_rtl = False, in_icon_end = False\<rparr>"
  let ?j = "\<lparr>in_danger = False, in_children = JNumber (Finite 0), in_icon = JObject 1,
       in_ghost = False, in_unbordered = False, in_innerLoading = True, in_hasTwoCNChar = False,
       in_mergedInsertSpace = True, in_block = False, in_rtl = False, in_icon_end = False\<rparr>"
  from icon_only_detection [where i = ?i] icon_only_detection [where i = ?j]
  show ?thesis by (simp add: spec_icon_present_def)
qed

text \<open>
  C10. The class \<^verbatim>\<open>-two-chinese-chars\<close> is emitted only while the loading flag is
  inactive. When the conditions for the spacing hold (one child, no icon, a variant that
  is not unbordered, auto-spacing on, a text of two Chinese characters), the effect
  sets the state \<^verbatim>\<open>hasTwoCNChar\<close>, and the class is then withheld with the loading flag
  active and emitted with it inactive. The auto-spacing setting is the prop when
  given, else that of the context when given, else true.
\<close>

theorem two_chinese_chars_class:
  fixes Children_count :: "ReactNode \<Rightarrow> nat"
    and isUnBorderedButtonVariant :: "string option \<Rightarrow> bool"
    and children icon :: ReactNode and mergedVariant :: "string option"
    and autoInsertSpace contextAutoInsertSpace :: "bool option"
  defines "need \<equiv> needInserted Children_count isUnBorderedButtonVariant children icon mergedVariant"
  defines "space \<equiv> mergedInsertSpace autoInsertSpace contextAutoInsertSpace"
  shows
  "(has_class ''-two-chinese-chars'' i \<longrightarrow> \<not> in_innerLoading i) \<and>
   \<not> has_class ''-two-chinese-chars'' (i\<lparr>in_innerLoading := True\<rparr>) \<and>
   (Children_count children = 1 \<and> \<not> truthy icon \<and>
    \<not> isUnBorderedButtonVariant mergedVariant \<and> space \<and> isTwoCNChar buttonText \<longrightarrow>
      twoCNCharEffect isTwoCNChar (Some buttonText) space need hasTwoCNChar \<and>
      \<not> has_class ''-two-chinese-chars''
          (i\<lparr>in_hasTwoCNChar := twoCNCharEffect isTwoCNChar (Some buttonText) space need hasTwoCNChar,
              in_mergedInsertSpace := space, in_innerLoading := True\<rparr>) \<and>
      has_class ''-two-chinese-chars''
          (i\<lparr>in_hasTwoCNChar := twoCNCharEffect isTwoCNChar (Some buttonText) space need hasTwoCNChar,
              in_mergedInsertSpace := space, in_innerLoading := False\<rparr>)) \<and>
   mergedInsertSpace None None = True \<and>
   mergedInsertSpace None (Some c) = c \<and>
   mergedInsertSpace (Some a) contextAutoInsertSpace = a"
  by (auto simp add: has_class_def suffix_classes_def need_def space_def needInserted_def
      twoCNCharEffect_def mergedInsertSpace_def)

theorem two_chinese_chars_class_witness:
  "\<not> has_class ''-two-chinese-chars''
      \<lparr>in_danger = False, in_children = JString ''XY'', in_icon = JUndefined, in_ghost = False,
       in_unbordered = False, in_innerLoading = True,
       in_hasTwoCNChar =
         twoCNCharEffect (\<lambda>s. length s = 2) (Some ''XY'') (mergedInsertSpace None None)
           (needInserted (\<lambda>c. if c = JUndefined \<or> c = JNull then 0 else 1)
              (\<lambda>v. v = Some ''text'' \<or> v = Some ''link'') (JString ''XY'') JUndefined
              (Some ''outlined''))
           False,
       in_mergedInsertSpace = mergedInsertSpace None None,
       in_block = False, in_rtl = False, in_icon_end = False\<rparr> \<and>
   has_class ''-two-chinese-chars''
      \<lparr>in_danger = False, in_children = JString ''XY'', in_icon = JUndefined, in_ghost = False,
       in_unbordered = False, in_innerLoading = False,
       in_hasTwoCNChar =
         twoCNCharEffect (\<lambda>s. length s = 2) (Some ''XY'') (mergedInsertSpace None None)
           (needInserted (\<lambda>c. if c = JUndefined \<or> c = JNull then 0 else 1)
              (\<lambda>v. v = Some ''text'' \<or> v = Some ''link'') (JString ''XY'') JUndefined
              (Some ''outlined''))
           False,
       in_mergedInsertSpace = mergedInsertSpace None None,
       in_block = False, in_rtl = False, in_icon_end = False\<rparr>"
proof -
  let ?count = "\<lambda>c. if c = JUndefined \<or> c = JNull then 0 else (1::nat)"
  let ?unbordered = "\<lambda>v. v = Some ''text'' \<or> v = Some ''link''"
  let ?two = "\<lambda>s::string. length s = 2"
  let ?i = "\<lparr>in_danger = False, in_children = JString ''XY'', in_icon = JUndefined,
       in_ghost = False, in_unbordered = False, in_innerLoading = False,
       in_hasTwoCNChar = False, in_mergedInsertSpace = False,
       in_block = False, in_rtl = False, in_icon_end = False\<rparr>"
  have pre: "?count (JString ''XY'') = 1 \<and> \<not> truthy JUndefined \<and>
    \<not> ?unbordered (Some ''outlined'') \<and> mergedInsertSpace None None \<and> ?two ''XY''"
    by (simp add: mergedInsertSpace_def)
  from two_chinese_chars_class
    [where Children_count = ?count and isUnBorderedButtonVariant = ?unbordered
       and isTwoCNChar = ?two and children = "JString ''XY''" and icon = JUndefined
       and mergedVariant = "Some ''outlined''" and autoInsertSpace = None
       and contextAutoInsertSpace = None and buttonText = "''XY''" and hasTwoCNChar = False
       and i = ?i,
     THEN conjunct2, THEN conjunct2, THEN conjunct1, rule_format, OF pre, THEN conjunct2]
  show ?thesis by simp
qed

end
